theory Spec2Isabelle
  imports Complex_Main "HOL-Library.Sublist"
begin

section \<open>Python floats\<close>

text \<open>
  The times handled by \<^verbatim>\<open>VSR.py\<close> are Python floats. A finite float is modelled by
  the real number it denotes, with exact arithmetic (rounding to the nearest double is not
  modelled); the three special values of a float are kept, since \<^verbatim>\<open>float()\<close> produces
  them from text and the comparisons of the program treat them specially.
\<close>

datatype pyfloat = Fin real | PInf | NInf | NaN

fun fneg :: "pyfloat \<Rightarrow> pyfloat" where
  "fneg (Fin a) = Fin (- a)"
| "fneg PInf = NInf"
| "fneg NInf = PInf"
| "fneg NaN = NaN"

text \<open>\<^verbatim>\<open>a + b\<close>\<close>

fun fadd :: "pyfloat \<Rightarrow> pyfloat \<Rightarrow> pyfloat" where
  "fadd (Fin a) (Fin b) = Fin (a + b)"
| "fadd NaN _ = NaN"
| "fadd _ NaN = NaN"
| "fadd PInf NInf = NaN"
| "fadd NInf PInf = NaN"
| "fadd PInf _ = PInf"
| "fadd _ PInf = PInf"
| "fadd NInf _ = NInf"
| "fadd _ NInf = NInf"

text \<open>\<^verbatim>\<open>a - b\<close>\<close>

definition fsub :: "pyfloat \<Rightarrow> pyfloat \<Rightarrow> pyfloat" where
  "fsub a b = fadd a (fneg b)"

text \<open>\<^verbatim>\<open>a < b\<close>: every comparison with a NaN is false.\<close>

fun flt :: "pyfloat \<Rightarrow> pyfloat \<Rightarrow> bool" where
  "flt (Fin a) (Fin b) = (a < b)"
| "flt NaN _ = False"
| "flt _ NaN = False"
| "flt PInf _ = False"
| "flt _ NInf = False"
| "flt NInf _ = True"
| "flt _ PInf = True"

text \<open>\<^verbatim>\<open>a > b\<close>\<close>

definition fgt :: "pyfloat \<Rightarrow> pyfloat \<Rightarrow> bool" where
  "fgt a b = flt b a"

text \<open>\<^verbatim>\<open>a == b\<close> and \<^verbatim>\<open>a <= b\<close>\<close>

definition feq :: "pyfloat \<Rightarrow> pyfloat \<Rightarrow> bool" where
  "feq a b = (a \<noteq> NaN \<and> a = b)"

definition fle :: "pyfloat \<Rightarrow> pyfloat \<Rightarrow> bool" where
  "fle a b = (flt a b \<or> feq a b)"

text \<open>
  \<^verbatim>\<open>max(a, b)\<close> and \<^verbatim>\<open>min(a, b)\<close>: Python keeps the first argument unless the second
  is strictly greater (smaller).
\<close>

definition fmax :: "pyfloat \<Rightarrow> pyfloat \<Rightarrow> pyfloat" where
  "fmax a b = (if fgt b a then b else a)"

definition fmin :: "pyfloat \<Rightarrow> pyfloat \<Rightarrow> pyfloat" where
  "fmin a b = (if flt b a then b else a)"

text \<open>\<^verbatim>\<open>2 * a\<close> and \<^verbatim>\<open>a / 2\<close>\<close>

fun fdouble :: "pyfloat \<Rightarrow> pyfloat" where
  "fdouble (Fin a) = Fin (2 * a)"
| "fdouble x = x"

fun fhalf :: "pyfloat \<Rightarrow> pyfloat" where
  "fhalf (Fin a) = Fin (a / 2)"
| "fhalf x = x"

section \<open>Keep-segment computation\<close>

type_synonym segment = "pyfloat \<times> pyfloat"

text \<open>
  The first loop of \<^verbatim>\<open>compute_keep_segments\<close>, over \<^verbatim>\<open>zip(silence_starts, silence_ends)\<close>,
  with its two variables \<^verbatim>\<open>segments\<close> and \<^verbatim>\<open>current_start\<close>.
\<close>

fun keep_loop :: "pyfloat \<Rightarrow> (pyfloat \<times> pyfloat) list \<Rightarrow> segment list \<Rightarrow> pyfloat
    \<Rightarrow> segment list \<times> pyfloat" where
  "keep_loop min_segment_length [] segments current_start = (segments, current_start)"
| "keep_loop min_segment_length ((s_start, s_end) # ps) segments current_start =
     keep_loop min_segment_length ps
       (if fgt (fsub s_start current_start) min_segment_length
        then segments @ [(current_start, s_start)] else segments)
       s_end"

text \<open>The list \<^verbatim>\<open>segments\<close> as it stands before the margin step.\<close>

definition base_segments :: "pyfloat list \<Rightarrow> pyfloat list \<Rightarrow> pyfloat \<Rightarrow> pyfloat \<Rightarrow> segment list" where
  "base_segments silence_starts silence_ends duration min_segment_length =
     (case keep_loop min_segment_length (zip silence_starts silence_ends) [] (Fin 0) of
        (segments, current_start) \<Rightarrow>
          if fgt (fsub duration current_start) min_segment_length
          then segments @ [(current_start, duration)] else segments)"

text \<open>The body of the margin loop at index \<^verbatim>\<open>i\<close>.\<close>

definition with_margin :: "segment list \<Rightarrow> pyfloat \<Rightarrow> pyfloat \<Rightarrow> nat \<Rightarrow> segment" where
  "with_margin segments duration margin i =
     (case segments ! i of (start, end) \<Rightarrow>
        (if i > 0 then fmax (fsub start margin) (Fin 0) else start,
         if int i < int (length segments) - 1 then fmin (fadd end margin) duration else end))"

definition compute_keep_segments ::
    "pyfloat list \<Rightarrow> pyfloat list \<Rightarrow> pyfloat \<Rightarrow> pyfloat \<Rightarrow> pyfloat \<Rightarrow> segment list" where
  "compute_keep_segments silence_starts silence_ends duration min_segment_length margin =
     (let segments = base_segments silence_starts silence_ends duration min_segment_length
      in if fgt margin (Fin 0)
         then map (with_margin segments duration margin) [0..<length segments]
         else segments)"

text \<open>
  The hypothesis of the interval property: the silence intervals, paired by position, are
  ordered and lie in \<open>[0, d]\<close>.
\<close>

definition silence_ok :: "real list \<Rightarrow> real list \<Rightarrow> real \<Rightarrow> bool" where
  "silence_ok ss es d =
     (\<forall>i < min (length ss) (length es).
        0 \<le> ss ! i \<and> ss ! i \<le> es ! i \<and> es ! i \<le> d \<and>
        (Suc i < min (length ss) (length es) \<longrightarrow> es ! i \<le> ss ! Suc i))"

text \<open>A segment of finite bounds \<open>a < b\<close> inside \<open>[0, d]\<close>.\<close>

definition seg_ok :: "real \<Rightarrow> segment \<Rightarrow> bool" where
  "seg_ok d g = (\<exists>a b. g = (Fin a, Fin b) \<and> 0 \<le> a \<and> a < b \<and> b \<le> d)"

section \<open>Fade shaping of a segment\<close>

text \<open>
  The fade duration that \<^verbatim>\<open>cut_segment\<close> passes to both \<^verbatim>\<open>afade\<close> filters, and the
  start time \<^verbatim>\<open>segment_length - fade_duration\<close> of the fade-out.
\<close>

definition effective_fade :: "pyfloat \<Rightarrow> pyfloat \<Rightarrow> pyfloat \<Rightarrow> pyfloat" where
  "effective_fade start end fade_duration =
     (let segment_length = fsub end start
      in if flt segment_length (fdouble fade_duration) then fhalf segment_length
         else fade_duration)"

definition fade_out_start :: "pyfloat \<Rightarrow> pyfloat \<Rightarrow> pyfloat \<Rightarrow> pyfloat" where
  "fade_out_start start end fade_duration =
     fsub (fsub end start) (effective_fade start end fade_duration)"

section \<open>Text: lines, substrings, the two regular expressions\<close>

text \<open>
  A Python \<^verbatim>\<open>str\<close> is modelled by a \<^typ>\<open>string\<close>, one \<^typ>\<open>char\<close> per code point, so
  code points up to 255 are covered. In that range \<^verbatim>\<open>\d\<close> matches the ten ASCII digits.
\<close>

definition is_digit :: "char \<Rightarrow> bool" where
  "is_digit c = (c \<in> set ''0123456789'')"

text \<open>\<^verbatim>\<open>sub in s\<close>\<close>

fun py_in :: "string \<Rightarrow> string \<Rightarrow> bool" where
  "py_in sub [] = (sub = [])"
| "py_in sub (c # cs) = (prefix sub (c # cs) \<or> py_in sub cs)"

text \<open>
  \<^verbatim>\<open>str.splitlines()\<close>: the line boundaries are LF, CR, CR LF, VT, FF, FS, GS, RS and NEL;
  a boundary at the very end opens no further line.
\<close>

definition is_linebreak :: "char \<Rightarrow> bool" where
  "is_linebreak c =
     (c \<in> set [CHR 0x0A, CHR 0x0D, CHR 0x0B, CHR 0x0C, CHR 0x1C, CHR 0x1D, CHR 0x1E, CHR 0x85])"

fun drop_break :: "string \<Rightarrow> string" where
  "drop_break (c # d # cs) = (if c = CHR 0x0D \<and> d = CHR 0x0A then cs else d # cs)"
| "drop_break [c] = []"
| "drop_break [] = []"

lemma length_drop_break: "s \<noteq> [] \<Longrightarrow> length (drop_break s) < length s"
  by (cases s rule: drop_break.cases) auto

function splitlines :: "string \<Rightarrow> string list" where
  "splitlines s =
     (if s = [] then []
      else let line = takeWhile (\<lambda>c. \<not> is_linebreak c) s;
               rest = dropWhile (\<lambda>c. \<not> is_linebreak c) s
           in if rest = [] then [line] else line # splitlines (drop_break rest))"
  by pat_completeness auto
termination
proof (relation "measure length")
  fix s line rest
  assume "rest = dropWhile (\<lambda>c. \<not> is_linebreak c) s" and "rest \<noteq> []"
  then have "length (drop_break rest) < length rest" and "length rest \<le> length s"
    by (simp_all add: length_drop_break length_dropWhile_le)
  then show "(drop_break rest, s) \<in> measure length"
    by simp
qed simp

declare splitlines.simps [simp del]

text \<open>
  Group 1 of \<^verbatim>\<open>(\d+(\.\d+)?)\<close> matched at the head of a string: the longest run of digits,
  then a dot and the longest run of digits when at least one digit follows the dot.
\<close>

definition match_number :: "string \<Rightarrow> string option" where
  "match_number s =
     (let ds = takeWhile is_digit s; r = dropWhile is_digit s
      in if ds = [] then None
         else (case r of
                 c # r' \<Rightarrow>
                   (let fs = takeWhile is_digit r'
                    in if c = CHR ''.'' \<and> fs \<noteq> [] then Some (ds @ c # fs) else Some ds)
               | [] \<Rightarrow> Some ds))"

text \<open>
  \<^verbatim>\<open>re.search\<close> for a pattern made of a literal followed by \<^verbatim>\<open>(\d+(\.\d+)?)\<close>: the
  leftmost position where the pattern matches, returning group 1. The pattern for
  \<^verbatim>\<open>silence_end\<close> ends in \<^verbatim>\<open>.*\<close>, which matches any rest of a line and leaves group 1
  as it is.
\<close>

definition match_at :: "string \<Rightarrow> string \<Rightarrow> string option" where
  "match_at lit s = (if prefix lit s then match_number (drop (length lit) s) else None)"

fun re_search :: "string \<Rightarrow> string \<Rightarrow> string option" where
  "re_search lit [] = match_at lit []"
| "re_search lit (c # cs) =
     (case match_at lit (c # cs) of Some g \<Rightarrow> Some g | None \<Rightarrow> re_search lit cs)"

section \<open>The builtin \<^verbatim>\<open>float()\<close> on text\<close>

text \<open>\<^verbatim>\<open>str.strip()\<close>: the whitespace characters among the code points up to 255.\<close>

definition is_space :: "char \<Rightarrow> bool" where
  "is_space c =
     (c \<in> set [CHR 0x09, CHR 0x0A, CHR 0x0B, CHR 0x0C, CHR 0x0D, CHR 0x1C, CHR 0x1D,
                CHR 0x1E, CHR 0x1F, CHR 0x20, CHR 0x85, CHR 0xA0])"

definition py_strip :: "string \<Rightarrow> string" where
  "py_strip s = rev (dropWhile is_space (rev (dropWhile is_space s)))"

text \<open>
  Underscores in a numeric literal: each must stand between two digits. The scan keeps the
  previous character, as the interpreter does, and returns the text without underscores.
\<close>

fun strip_underscores :: "char \<Rightarrow> string \<Rightarrow> string option" where
  "strip_underscores prev [] = (if prev = CHR ''_'' then None else Some [])"
| "strip_underscores prev (c # cs) =
     (if c = CHR ''_'' then (if is_digit prev then strip_underscores c cs else None)
      else if prev = CHR ''_'' \<and> \<not> is_digit c then None
      else map_option (Cons c) (strip_underscores c cs))"

definition digit_val :: "char \<Rightarrow> nat" where
  "digit_val c = of_char c - 48"

definition dec_nat :: "string \<Rightarrow> nat" where
  "dec_nat ds = foldl (\<lambda>n c. 10 * n + digit_val c) 0 ds"

definition pow10 :: "int \<Rightarrow> real" where
  "pow10 k = (if 0 \<le> k then 10 ^ nat k else 1 / 10 ^ nat (- k))"

text \<open>An optional sign: whether it is a minus, and the rest.\<close>

fun parse_sign :: "string \<Rightarrow> bool \<times> string" where
  "parse_sign (c # cs) =
     (if c = CHR ''-'' then (True, cs) else if c = CHR ''+'' then (False, cs) else (False, c # cs))"
| "parse_sign [] = (False, [])"

text \<open>
  An unsigned decimal literal that fills the whole string: digits, an optional dot and
  digits, with a digit on at least one side, and an optional exponent. The value is exact.
\<close>

definition parse_exponent :: "string \<Rightarrow> int option" where
  "parse_exponent r =
     (case r of
        [] \<Rightarrow> Some 0
      | c # t \<Rightarrow>
          if c = CHR ''e'' \<or> c = CHR ''E''
          then (case parse_sign t of
                  (neg, ds) \<Rightarrow>
                    if ds \<noteq> [] \<and> list_all is_digit ds
                    then Some (if neg then - int (dec_nat ds) else int (dec_nat ds))
                    else None)
          else None)"

definition parse_decimal :: "string \<Rightarrow> real option" where
  "parse_decimal s =
     (let ip = takeWhile is_digit s; r1 = dropWhile is_digit s;
          fp = (case r1 of c # t \<Rightarrow> if c = CHR ''.'' then takeWhile is_digit t else [] | [] \<Rightarrow> []);
          r2 = (case r1 of c # t \<Rightarrow> if c = CHR ''.'' then dropWhile is_digit t else r1 | [] \<Rightarrow> [])
      in if ip = [] \<and> fp = [] then None
         else (case parse_exponent r2 of
                 None \<Rightarrow> None
               | Some e \<Rightarrow> Some (real (dec_nat (ip @ fp)) * pow10 (e - int (length fp)))))"

definition lower_ascii :: "char \<Rightarrow> char" where
  "lower_ascii c =
     (case map_of (zip ''ABCDEFGHIJKLMNOPQRSTUVWXYZ'' ''abcdefghijklmnopqrstuvwxyz'') c of
        Some l \<Rightarrow> l
      | None \<Rightarrow> c)"

definition parse_inf_or_nan :: "string \<Rightarrow> pyfloat option" where
  "parse_inf_or_nan s =
     (case parse_sign s of
        (neg, r) \<Rightarrow>
          (let w = map lower_ascii r
           in if w = ''inf'' \<or> w = ''infinity'' then Some (if neg then NInf else PInf)
              else if w = ''nan'' then Some NaN
              else None))"

text \<open>\<^verbatim>\<open>float(s)\<close> for a string \<^verbatim>\<open>s\<close>; \<open>None\<close> stands for the \<^verbatim>\<open>ValueError\<close>.\<close>

definition py_float :: "string \<Rightarrow> pyfloat option" where
  "py_float s =
     (case strip_underscores (CHR 0x00) (py_strip s) of
        None \<Rightarrow> None
      | Some u \<Rightarrow>
          (case parse_sign u of
             (neg, r) \<Rightarrow>
               (case parse_decimal r of
                  Some v \<Rightarrow> Some (Fin (if neg then - v else v))
                | None \<Rightarrow> parse_inf_or_nan u)))"


section \<open>The silence parser\<close>

datatype exn = RuntimeError string | ValueError string | OSError string | OtherException string

text \<open>\<^verbatim>\<open>str(e)\<close>\<close>

fun exn_str :: "exn \<Rightarrow> string" where
  "exn_str (RuntimeError m) = m"
| "exn_str (ValueError m) = m"
| "exn_str (OSError m) = m"
| "exn_str (OtherException m) = m"

text \<open>
  One of the two \<^verbatim>\<open>if\<close> blocks in the loop of \<^verbatim>\<open>detect_silence\<close>: the line is searched
  when it contains the marker word; a match appends \<^verbatim>\<open>float(m.group(1))\<close> to the list.
\<close>

definition scan_marker :: "string \<Rightarrow> string \<Rightarrow> string \<Rightarrow> pyfloat list \<Rightarrow> exn + pyfloat list" where
  "scan_marker marker lit line acc =
     (if py_in marker line
      then (case re_search lit line of
              Some g \<Rightarrow>
                (case py_float g of
                   Some v \<Rightarrow> Inr (acc @ [v])
                 | None \<Rightarrow> Inl (ValueError (''could not convert string to float: '' @ g)))
            | None \<Rightarrow> Inr acc)
      else Inr acc)"

fun parse_lines :: "string list \<Rightarrow> pyfloat list \<Rightarrow> pyfloat list
    \<Rightarrow> exn + (pyfloat list \<times> pyfloat list)" where
  "parse_lines [] silence_starts silence_ends = Inr (silence_starts, silence_ends)"
| "parse_lines (line # ls) silence_starts silence_ends =
     (case scan_marker ''silence_start'' ''silence_start: '' line silence_starts of
        Inl e \<Rightarrow> Inl e
      | Inr silence_starts' \<Rightarrow>
          (case scan_marker ''silence_end'' ''silence_end: '' line silence_ends of
             Inl e \<Rightarrow> Inl e
           | Inr silence_ends' \<Rightarrow> parse_lines ls silence_starts' silence_ends'))"

text \<open>The part of \<^verbatim>\<open>detect_silence\<close> after the detector has run, on its diagnostic text.\<close>

definition parse_silence :: "string \<Rightarrow> exn + (pyfloat list \<times> pyfloat list)" where
  "parse_silence stderr_text = parse_lines (splitlines stderr_text) [] []"




text \<open>The number that the parser reads from a line, if it reads one.\<close>

definition timestamp :: "string \<Rightarrow> string \<Rightarrow> pyfloat option" where
  "timestamp lit line = (case re_search lit line of None \<Rightarrow> None | Some g \<Rightarrow> py_float g)"

text \<open>The texts that group 1 can hold: digits, or digits, a dot and digits.\<close>

definition is_number :: "string \<Rightarrow> bool" where
  "is_number g =
     (\<exists>ds fs. ds \<noteq> [] \<and> list_all is_digit ds \<and> list_all is_digit fs \<and>
        (g = ds \<or> (fs \<noteq> [] \<and> g = ds @ CHR ''.'' # fs)))"







section \<open>The pipeline and its environment\<close>

text \<open>
  What an external process did: its exit status, its captured streams, and whether it
  wrote the output file it was asked for.
\<close>

record proc =
  returncode :: int
  proc_stdout :: string
  proc_stderr :: string
  output_written :: bool

text \<open>
  The environment of one run: \<^verbatim>\<open>subprocess\<close> (which raises when the program cannot be
  started), the temporary directory and manifest file, \<^verbatim>\<open>os.remove\<close>, and the two float
  formats \<^verbatim>\<open>{x:.2f}\<close> and \<^verbatim>\<open>{x}\<close> of the f-strings.
\<close>

record env =
  subprocess_run :: "string list \<Rightarrow> exn + proc"
  format_2f :: "pyfloat \<Rightarrow> string"
  format_str :: "pyfloat \<Rightarrow> string"
  tmp_mkdtemp :: "exn + string"
  tmp_rmtree :: "string \<Rightarrow> exn + unit"
  tmp_write :: "string \<Rightarrow> exn + string"
  os_remove :: "string \<Rightarrow> exn + unit"

text \<open>
  A computation that may raise and that reports through \<^verbatim>\<open>status_callback\<close>: the state is
  the list of messages delivered so far. The callback itself is taken not to raise.
\<close>

type_synonym 'a io = "string list \<Rightarrow> (exn + 'a) \<times> string list"

definition ret :: "'a \<Rightarrow> 'a io" where
  "ret x msgs = (Inr x, msgs)"

definition raise_exn :: "exn \<Rightarrow> 'a io" where
  "raise_exn e msgs = (Inl e, msgs)"

definition lift :: "exn + 'a \<Rightarrow> 'a io" where
  "lift r msgs = (r, msgs)"

definition bnd :: "'a io \<Rightarrow> ('a \<Rightarrow> 'b io) \<Rightarrow> 'b io" where
  "bnd m f msgs = (case m msgs of (Inl e, msgs') \<Rightarrow> (Inl e, msgs') | (Inr x, msgs') \<Rightarrow> f x msgs')"

definition status_callback :: "string \<Rightarrow> unit io" where
  "status_callback msg msgs = (Inr (), msgs @ [msg])"

text \<open>\<^verbatim>\<open>try: body except Exception as e: handler(e)\<close>\<close>

definition try_except :: "unit io \<Rightarrow> (exn \<Rightarrow> unit io) \<Rightarrow> unit io" where
  "try_except body handler msgs =
     (case body msgs of (Inl e, msgs') \<Rightarrow> handler e msgs' | (Inr x, msgs') \<Rightarrow> (Inr x, msgs'))"

text \<open>
  \<^verbatim>\<open>with tempfile.TemporaryDirectory() as tmpdirname: body\<close>: the directory is removed on
  every way out of the body, and a failure of the removal is raised.
\<close>

definition with_tmpdir :: "env \<Rightarrow> (string \<Rightarrow> 'a io) \<Rightarrow> 'a io" where
  "with_tmpdir env body msgs =
     (case tmp_mkdtemp env of
        Inl e \<Rightarrow> (Inl e, msgs)
      | Inr tmpdirname \<Rightarrow>
          (case body tmpdirname msgs of
             (r, msgs') \<Rightarrow>
               (case tmp_rmtree env tmpdirname of
                  Inl e \<Rightarrow> (Inl e, msgs')
                | Inr _ \<Rightarrow> (r, msgs'))))"

text \<open>Decimal digits of a natural number, for \<^verbatim>\<open>{len(segments)}\<close> and \<^verbatim>\<open>{idx}\<close>.\<close>

function show_nat :: "nat \<Rightarrow> string" where
  "show_nat n =
     (if n < 10 then [''0123456789'' ! n]
      else show_nat (n div 10) @ [''0123456789'' ! (n mod 10)])"
  by pat_completeness auto
termination
  by (relation "measure id") auto

declare show_nat.simps [simp del]

text \<open>\<^verbatim>\<open>os.path.join(a, b)\<close> on POSIX.\<close>

definition path_join :: "string \<Rightarrow> string \<Rightarrow> string" where
  "path_join a b =
     (if prefix ''/'' b then b
      else if a = [] \<or> last a = CHR ''/'' then a @ b
      else a @ ''/'' @ b)"

text \<open>
  The \<^verbatim>\<open>try\<close> block of \<^verbatim>\<open>get_video_duration\<close>, on the text that \<^verbatim>\<open>ffprobe\<close> printed:
  a \<^verbatim>\<open>ValueError\<close> of \<^verbatim>\<open>float\<close> becomes the \<^verbatim>\<open>RuntimeError\<close>.
\<close>

definition parse_duration :: "string \<Rightarrow> exn + pyfloat" where
  "parse_duration stdout_text =
     (case py_float (py_strip stdout_text) of
        Some d \<Rightarrow> Inr d
      | None \<Rightarrow> Inl (RuntimeError ''Failed to get video duration.''))"

definition probe_cmd :: "string \<Rightarrow> string list" where
  "probe_cmd input_file =
     [''ffprobe'', ''-i'', input_file, ''-show_entries'', ''format=duration'',
      ''-v'', ''quiet'', ''-of'', ''csv=p=0'']"

definition get_video_duration :: "env \<Rightarrow> string \<Rightarrow> exn + pyfloat" where
  "get_video_duration env input_file =
     (case subprocess_run env (probe_cmd input_file) of
        Inl e \<Rightarrow> Inl e
      | Inr result \<Rightarrow> parse_duration (proc_stdout result))"

definition detect_cmd :: "env \<Rightarrow> string \<Rightarrow> pyfloat \<Rightarrow> pyfloat \<Rightarrow> string list" where
  "detect_cmd env input_file threshold min_silence_duration =
     [''ffmpeg'', ''-i'', input_file, ''-af'',
      ''silencedetect=noise='' @ format_str env threshold @ ''dB:d=''
        @ format_str env min_silence_duration,
      ''-f'', ''null'', ''-'']"

definition detect_silence :: "env \<Rightarrow> string \<Rightarrow> pyfloat \<Rightarrow> pyfloat
    \<Rightarrow> (pyfloat list \<times> pyfloat list) io" where
  "detect_silence env input_file threshold min_silence_duration =
     bnd (status_callback ''Detecting silence...'') (\<lambda>_.
     bnd (lift (subprocess_run env (detect_cmd env input_file threshold min_silence_duration)))
       (\<lambda>p. lift (parse_silence (proc_stderr p))))"

definition cut_cmd :: "env \<Rightarrow> string \<Rightarrow> pyfloat \<Rightarrow> pyfloat \<Rightarrow> string \<Rightarrow> pyfloat \<Rightarrow> string list" where
  "cut_cmd env input_file start end output_file fade_duration =
     (let filter_complex =
        ''[0:v]trim=start='' @ format_str env start @ '':end='' @ format_str env end
          @ '',setpts=PTS-STARTPTS[v];''
          @ ''[0:a]atrim=start='' @ format_str env start @ '':end='' @ format_str env end
          @ '',asetpts=PTS-STARTPTS,''
          @ ''afade=t=in:st=0:d='' @ format_str env (effective_fade start end fade_duration) @ '',''
          @ ''afade=t=out:st='' @ format_str env (fade_out_start start end fade_duration)
          @ '':d='' @ format_str env (effective_fade start end fade_duration) @ ''[a]''
      in [''ffmpeg'', ''-y'', ''-i'', input_file, ''-filter_complex'', filter_complex,
          ''-map'', ''[v]'', ''-map'', ''[a]'',
          ''-c:v'', ''libx264'', ''-preset'', ''fast'', ''-crf'', ''18'',
          ''-c:a'', ''aac'', ''-b:a'', ''192k'', output_file])"

text \<open>
  \<^verbatim>\<open>cut_segment\<close>: the result of \<^verbatim>\<open>subprocess.run\<close> is dropped, so only a failure to
  start the process raises.
\<close>

definition cut_segment :: "env \<Rightarrow> string \<Rightarrow> pyfloat \<Rightarrow> pyfloat \<Rightarrow> string \<Rightarrow> pyfloat \<Rightarrow> unit io" where
  "cut_segment env input_file start end output_file fade_duration =
     bnd (status_callback (''Cutting segment: '' @ format_2f env start @ '' to ''
            @ format_2f env end @ '' seconds'')) (\<lambda>_.
     bnd (lift (subprocess_run env (cut_cmd env input_file start end output_file fade_duration)))
       (\<lambda>_. ret ()))"

definition concat_cmd :: "string \<Rightarrow> string \<Rightarrow> string list" where
  "concat_cmd concat_filepath output_file =
     [''ffmpeg'', ''-y'', ''-f'', ''concat'', ''-safe'', ''0'', ''-i'', concat_filepath,
      ''-c:v'', ''libx264'', ''-preset'', ''fast'', ''-crf'', ''18'',
      ''-c:a'', ''aac'', ''-b:a'', ''192k'', ''-strict'', ''experimental'', output_file]"

definition concat_segments_without_crossfade :: "env \<Rightarrow> string list \<Rightarrow> string \<Rightarrow> unit io" where
  "concat_segments_without_crossfade env segment_files output_file =
     bnd (status_callback ''Concatenating segments...'') (\<lambda>_.
     bnd (lift (tmp_write env
                  (concat (map (\<lambda>seg. ''file '' @ [CHR 0x27] @ seg @ [CHR 0x27, CHR 0x0A])
                             segment_files)))) (\<lambda>concat_filepath.
     bnd (lift (subprocess_run env (concat_cmd concat_filepath output_file))) (\<lambda>_.
     lift (os_remove env concat_filepath))))"

text \<open>The loop over \<^verbatim>\<open>enumerate(segments)\<close> in \<^verbatim>\<open>process_video\<close>.\<close>

fun cut_all :: "env \<Rightarrow> string \<Rightarrow> string \<Rightarrow> nat \<Rightarrow> segment list \<Rightarrow> string list
    \<Rightarrow> string list io" where
  "cut_all env input_file tmpdirname idx [] segment_files = ret segment_files"
| "cut_all env input_file tmpdirname idx ((start, end) # rest) segment_files =
     (let seg_file = path_join tmpdirname (''segment_'' @ show_nat idx @ ''.mp4'')
      in bnd (cut_segment env input_file start end seg_file (Fin (1 / 10))) (\<lambda>_.
         cut_all env input_file tmpdirname (Suc idx) rest (segment_files @ [seg_file])))"

definition no_segments_msg :: string where
  "no_segments_msg =
     ''No non-silent segments detected. Adjust your threshold or silence duration settings.''"

text \<open>The \<^verbatim>\<open>try\<close> block of \<^verbatim>\<open>process_video\<close>.\<close>

definition process_body :: "env \<Rightarrow> string \<Rightarrow> string \<Rightarrow> pyfloat \<Rightarrow> pyfloat \<Rightarrow> pyfloat \<Rightarrow> unit io" where
  "process_body env input_file output_file threshold min_silence_duration margin =
     bnd (lift (get_video_duration env input_file)) (\<lambda>duration.
     bnd (status_callback (''Video duration: '' @ format_2f env duration @ '' seconds'')) (\<lambda>_.
     bnd (detect_silence env input_file threshold min_silence_duration)
       (\<lambda>(silence_starts, silence_ends).
     (let segments =
            compute_keep_segments silence_starts silence_ends duration (Fin (1 / 10)) margin
      in bnd (if segments = [] then raise_exn (RuntimeError no_segments_msg) else ret ()) (\<lambda>_.
         bnd (status_callback (''Found '' @ show_nat (length segments)
                @ '' non-silent segments.'')) (\<lambda>_.
         bnd (with_tmpdir env (\<lambda>tmpdirname.
                bnd (cut_all env input_file tmpdirname 0 segments []) (\<lambda>segment_files.
                concat_segments_without_crossfade env segment_files output_file))) (\<lambda>_.
         status_callback (''Processing complete. Output saved as:'' @ [CHR 0x0A]
           @ output_file))))))))"

definition process_video :: "env \<Rightarrow> string \<Rightarrow> string \<Rightarrow> pyfloat \<Rightarrow> pyfloat \<Rightarrow> pyfloat \<Rightarrow> unit io" where
  "process_video env input_file output_file threshold min_silence_duration margin =
     try_except
       (process_body env input_file output_file threshold min_silence_duration margin)
       (\<lambda>e. status_callback (''Error: '' @ exn_str e))"


text \<open>
  A computation whose new status messages include none that starts with \<^verbatim>\<open>Error: \<close>.
\<close>

definition emits_no_error :: "'a io \<Rightarrow> bool" where
  "emits_no_error m =
     (\<forall>msgs r msgs'. m msgs = (r, msgs') \<longrightarrow>
        (\<exists>new. msgs' = msgs @ new \<and> filter (prefix ''Error: '') new = []))"

section \<open>Sample environments\<close>



text \<open>
  An environment for a clip of 5 seconds that is silent throughout (scenario C of the
  specification).
\<close>

definition silent_clip :: env where
  "silent_clip =
     \<lparr>subprocess_run =
        (\<lambda>cmd. if cmd = probe_cmd ''in.mp4''
               then Inr \<lparr>returncode = 0, proc_stdout = ''5.000000'' @ [CHR 0x0A],
                         proc_stderr = [], output_written = False\<rparr>
               else Inr \<lparr>returncode = 0, proc_stdout = [],
                         proc_stderr = ''silence_start: 0'' @ [CHR 0x0A]
                           @ ''silence_end: 5 | silence_duration: 5'',
                         output_written = False\<rparr>),
      format_2f = (\<lambda>x. ''5.00''), format_str = (\<lambda>x. ''?''),
      tmp_mkdtemp = Inr ''/tmp/tmpdir'', tmp_rmtree = (\<lambda>d. Inr ()),
      tmp_write = (\<lambda>c. Inr ''/tmp/manifest''), os_remove = (\<lambda>f. Inr ())\<rparr>"

section \<open>Properties of the keep-segment computation\<close>

lemma fle_Fin: "fle (Fin a) (Fin b) = (a \<le> b)"
  by (auto simp: fle_def feq_def)

lemma keep_loop_ok:
  assumes "\<forall>p \<in> set ps. \<exists>s e. p = (Fin s, Fin e) \<and> 0 \<le> s \<and> s \<le> d \<and> 0 \<le> e"
    and "\<forall>g \<in> set segs. seg_ok d g" and "0 \<le> c" and "0 \<le> m"
    and "keep_loop (Fin m) ps segs (Fin c) = (segs', cur')"
  shows "(\<forall>g \<in> set segs'. seg_ok d g) \<and> (\<exists>c'. cur' = Fin c' \<and> 0 \<le> c')"
  using assms
proof (induction ps arbitrary: segs c)
  case Nil
  then show ?case by auto
next
  case (Cons p ps)
  from Cons.prems(1) obtain s e
    where p: "p = (Fin s, Fin e)" and s: "0 \<le> s" "s \<le> d" and e: "0 \<le> e"
    by auto
  let ?segs = "if fgt (fsub (Fin s) (Fin c)) (Fin m) then segs @ [(Fin c, Fin s)] else segs"
  have ok: "\<forall>g \<in> set ?segs. seg_ok d g"
    using Cons.prems(2,3,4) s by (auto simp: seg_ok_def fgt_def fsub_def)
  have run: "keep_loop (Fin m) ps ?segs (Fin e) = (segs', cur')"
    using Cons.prems(5) by (simp add: p)
  show ?case
    by (rule Cons.IH [OF _ ok e Cons.prems(4) run]) (use Cons.prems(1) in auto)
qed

lemma zip_silence_ok:
  assumes "silence_ok ss es d" and "p \<in> set (zip (map Fin ss) (map Fin es))"
  shows "\<exists>s e. p = (Fin s, Fin e) \<and> 0 \<le> s \<and> s \<le> d \<and> 0 \<le> e"
proof -
  from assms(2) obtain i
    where i: "i < length ss" "i < length es" and p: "p = (Fin (ss ! i), Fin (es ! i))"
    by (auto simp: in_set_zip)
  from assms(1) i have "0 \<le> ss ! i \<and> ss ! i \<le> es ! i \<and> es ! i \<le> d"
    by (simp add: silence_ok_def)
  with p show ?thesis by auto
qed

lemma base_segments_ok:
  assumes "0 \<le> d" and "0 \<le> m" and "silence_ok ss es d"
  shows "\<forall>g \<in> set (base_segments (map Fin ss) (map Fin es) (Fin d) (Fin m)). seg_ok d g"
proof -
  obtain segs cur
    where run: "keep_loop (Fin m) (zip (map Fin ss) (map Fin es)) [] (Fin 0) = (segs, cur)"
    by (cases "keep_loop (Fin m) (zip (map Fin ss) (map Fin es)) [] (Fin 0)")
  have "(\<forall>g \<in> set segs. seg_ok d g) \<and> (\<exists>c'. cur = Fin c' \<and> 0 \<le> c')"
    by (rule keep_loop_ok [OF _ _ _ assms(2) run]) (use zip_silence_ok [OF assms(3)] in auto)
  then obtain c' where segs: "\<forall>g \<in> set segs. seg_ok d g" and cur: "cur = Fin c'" "0 \<le> c'"
    by auto
  show ?thesis
    using segs cur assms(2) by (auto simp: base_segments_def run seg_ok_def fgt_def fsub_def)
qed

lemma with_margin_ok:
  assumes "\<forall>g \<in> set segs. seg_ok d g" and "i < length segs" and "fgt margin (Fin 0)"
  shows "seg_ok d (with_margin segs (Fin d) margin i)"
proof -
  from assms(1,2) obtain a b
    where g: "segs ! i = (Fin a, Fin b)" and ab: "0 \<le> a" "a < b" "b \<le> d"
    by (metis nth_mem seg_ok_def)
  show ?thesis
    using assms(3) ab
    by (cases margin) (auto simp: with_margin_def g seg_ok_def fgt_def fsub_def fmax_def fmin_def)
qed

lemma seg_ok_bounds: "seg_ok d (s, e) \<Longrightarrow> fle (Fin 0) s \<and> flt s e \<and> fle e (Fin d)"
  by (auto simp: seg_ok_def fle_def feq_def)

text \<open>
  C1. For a duration \<open>d \<ge> 0\<close>, a minimum segment length \<open>m \<ge> 0\<close>, any margin (also an
  infinite one or a NaN) and silence intervals, paired by position, that are ordered and lie
  in \<open>[0, d]\<close>, every interval \<open>(s, e)\<close> returned by \<^verbatim>\<open>compute_keep_segments\<close> satisfies
  \<open>0 \<le> s < e \<le> d\<close>.
\<close>

theorem keep_segments_within_duration:
  assumes "0 \<le> d" and "0 \<le> m" and "silence_ok ss es d"
  shows "\<forall>(s, e) \<in> set (compute_keep_segments (map Fin ss) (map Fin es) (Fin d) (Fin m) margin).
           fle (Fin 0) s \<and> flt s e \<and> fle e (Fin d)"
proof -
  let ?base = "base_segments (map Fin ss) (map Fin es) (Fin d) (Fin m)"
  have base: "\<forall>g \<in> set ?base. seg_ok d g"
    by (rule base_segments_ok [OF assms])
  have "\<forall>g \<in> set (compute_keep_segments (map Fin ss) (map Fin es) (Fin d) (Fin m) margin).
          seg_ok d g"
  proof (cases "fgt margin (Fin 0)")
    case True
    then show ?thesis
      using with_margin_ok [OF base _ True] by (auto simp: compute_keep_segments_def Let_def)
  next
    case False
    then show ?thesis
      using base by (simp add: compute_keep_segments_def)
  qed
  then show ?thesis
    using seg_ok_bounds by blast
qed

theorem keep_segments_within_duration_witness:
  "0 \<le> (10::real) \<and> 0 \<le> (1 / 10 :: real) \<and> silence_ok [2, 5] [3, 6] 10 \<and>
   compute_keep_segments (map Fin [2, 5]) (map Fin [3, 6]) (Fin 10) (Fin (1 / 10)) (Fin (1 / 2))
     = [(Fin 0, Fin (5 / 2)), (Fin (5 / 2), Fin (11 / 2)), (Fin (11 / 2), Fin 10)] \<and>
   fle (Fin 0) (Fin 0) \<and> flt (Fin 0) (Fin (5 / 2)) \<and> fle (Fin (5 / 2)) (Fin 10) \<and>
   fle (Fin 0) (Fin (5 / 2)) \<and> flt (Fin (5 / 2)) (Fin (11 / 2)) \<and> fle (Fin (11 / 2)) (Fin 10) \<and>
   fle (Fin 0) (Fin (11 / 2)) \<and> flt (Fin (11 / 2)) (Fin 10) \<and> fle (Fin 10) (Fin 10)"
proof -
  have h: "silence_ok [2, 5] [3, 6] 10"
    by (simp add: silence_ok_def less_Suc_eq all_conj_distrib nth_Cons')
  have r: "compute_keep_segments (map Fin [2, 5]) (map Fin [3, 6]) (Fin 10) (Fin (1 / 10))
             (Fin (1 / 2))
           = [(Fin 0, Fin (5 / 2)), (Fin (5 / 2), Fin (11 / 2)), (Fin (11 / 2), Fin 10)]"
    by (simp add: compute_keep_segments_def base_segments_def with_margin_def
        fgt_def fsub_def fmax_def fmin_def upt_rec)
  show ?thesis
    using h r keep_segments_within_duration [of 10 "1 / 10" "[2, 5]" "[3, 6]" "Fin (1 / 2)"]
    unfolding r by simp
qed

text \<open>
  C2. When \<open>margin > 0\<close>, the result has as many intervals as the list before the margin
  step; the start of every interval but the first is \<open>max(start - margin, 0)\<close>, the end of
  every interval but the last is \<open>min(end + margin, duration)\<close>, and the start of the first
  and the end of the last are unchanged.
\<close>

theorem margin_widens:
  assumes "fgt margin (Fin 0)"
  shows "let base = base_segments ss es d m; res = compute_keep_segments ss es d m margin in
     length res = length base \<and>
     (\<forall>i < length base.
        fst (res ! i) =
          (if i = 0 then fst (base ! i) else fmax (fsub (fst (base ! i)) margin) (Fin 0)) \<and>
        snd (res ! i) =
          (if Suc i = length base then snd (base ! i)
           else fmin (fadd (snd (base ! i)) margin) d))"
  using assms
  by (auto simp: compute_keep_segments_def Let_def with_margin_def split: prod.splits)

theorem margin_widens_witness:
  "fgt (Fin (1 / 2)) (Fin 0) \<and>
   base_segments [Fin 2, Fin 5] [Fin 3, Fin 6] (Fin 10) (Fin (1 / 10))
     = [(Fin 0, Fin 2), (Fin 3, Fin 5), (Fin 6, Fin 10)] \<and>
   (let base = base_segments [Fin 2, Fin 5] [Fin 3, Fin 6] (Fin 10) (Fin (1 / 10));
        res = compute_keep_segments [Fin 2, Fin 5] [Fin 3, Fin 6] (Fin 10) (Fin (1 / 10))
                (Fin (1 / 2)) in
     length res = length base \<and>
     (\<forall>i < length base.
        fst (res ! i) =
          (if i = 0 then fst (base ! i)
           else fmax (fsub (fst (base ! i)) (Fin (1 / 2))) (Fin 0)) \<and>
        snd (res ! i) =
          (if Suc i = length base then snd (base ! i)
           else fmin (fadd (snd (base ! i)) (Fin (1 / 2))) (Fin 10))))"
proof -
  have h: "fgt (Fin (1 / 2)) (Fin 0)"
    by (simp add: fgt_def)
  have b: "base_segments [Fin 2, Fin 5] [Fin 3, Fin 6] (Fin 10) (Fin (1 / 10))
             = [(Fin 0, Fin 2), (Fin 3, Fin 5), (Fin 6, Fin 10)]"
    by (simp add: base_segments_def fgt_def fsub_def)
  show ?thesis
    using h b
      margin_widens [OF h, of "[Fin 2, Fin 5]" "[Fin 3, Fin 6]" "Fin 10" "Fin (1 / 10)"]
    by blast
qed

text \<open>
  C3, as the code has it. For starts=[2.0], ends=[2.05], duration=4.0,
  min_segment_length=0.1, margin=0 the result is [(0.0, 2.0), (2.05, 4.0)]:
  \<^verbatim>\<open>min_segment_length\<close> bounds the length of a keep segment, not of a silence interval, so
  the silence of 0.05 seconds does split the surrounding segment.
\<close>

theorem scenario_E_short_silence_splits:
  "compute_keep_segments [Fin 2] [Fin (205 / 100)] (Fin 4) (Fin (1 / 10)) (Fin 0)
     = [(Fin 0, Fin 2), (Fin (205 / 100), Fin 4)]"
  by (simp add: compute_keep_segments_def base_segments_def fgt_def fsub_def)

text \<open>C3 as stated fails: the result on that input is not [(0.0, 4.0)].\<close>

theorem scenario_E_counterexample:
  "compute_keep_segments [Fin 2] [Fin (205 / 100)] (Fin 4) (Fin (1 / 10)) (Fin 0)
     \<noteq> [(Fin 0, Fin 4)]"
  by (simp add: compute_keep_segments_def base_segments_def fgt_def fsub_def)

text \<open>
  C4, as the code has it. For starts=[2.0], ends=[3.0], duration=10.0,
  min_segment_length=0.1, margin=0.5 the result is [(0.0, 2.5), (2.5, 10.0)]: the margin
  widens each segment into the silence next to it; the first start and the last end get no
  margin.
\<close>

theorem scenario_D_margin_widens:
  "compute_keep_segments [Fin 2] [Fin 3] (Fin 10) (Fin (1 / 10)) (Fin (1 / 2))
     = [(Fin 0, Fin (5 / 2)), (Fin (5 / 2), Fin 10)]"
  by (simp add: compute_keep_segments_def base_segments_def with_margin_def
      fgt_def fsub_def fmax_def fmin_def upt_rec)

text \<open>C4 as stated fails: the result on that input is not [(0.0, 1.5), (3.5, 10.0)].\<close>

theorem scenario_D_counterexample:
  "compute_keep_segments [Fin 2] [Fin 3] (Fin 10) (Fin (1 / 10)) (Fin (1 / 2))
     \<noteq> [(Fin 0, Fin (3 / 2)), (Fin (7 / 2), Fin 10)]"
  by (simp add: compute_keep_segments_def base_segments_def with_margin_def
      fgt_def fsub_def fmax_def fmin_def upt_rec)

text \<open>
  C10. When \<open>margin \<le> 0\<close>, also when it is strictly negative, \<^verbatim>\<open>compute_keep_segments\<close>
  returns the list as it stands before the margin step, which is also its result for
  margin 0: a negative margin neither shrinks the segments nor is rejected.
\<close>

theorem nonpositive_margin_ignored:
  assumes "fle margin (Fin 0)"
  shows "compute_keep_segments ss es d m margin = base_segments ss es d m
       \<and> compute_keep_segments ss es d m margin = compute_keep_segments ss es d m (Fin 0)"
  using assms by (cases margin) (auto simp: compute_keep_segments_def fgt_def fle_def feq_def)

theorem nonpositive_margin_ignored_witness:
  "fle (Fin (- 1)) (Fin 0) \<and>
   compute_keep_segments [Fin 2] [Fin 3] (Fin 10) (Fin (1 / 10)) (Fin (- 1))
     = [(Fin 0, Fin 2), (Fin 3, Fin 10)]"
proof -
  have h: "fle (Fin (- 1)) (Fin 0)"
    by (simp add: fle_def)
  have b: "base_segments [Fin 2] [Fin 3] (Fin 10) (Fin (1 / 10))
             = [(Fin 0, Fin 2), (Fin 3, Fin 10)]"
    by (simp add: base_segments_def fgt_def fsub_def)
  show ?thesis
    using h nonpositive_margin_ignored [OF h, of "[Fin 2]" "[Fin 3]" "Fin 10" "Fin (1 / 10)"] b
    by simp
qed

section \<open>The fades of a segment\<close>

text \<open>
  C7. For \<open>0 \<le> start < end\<close> and a requested fade duration \<open>f \<ge> 0\<close>, the fade duration
  used by \<^verbatim>\<open>cut_segment\<close> is \<open>f\<close> when the segment is at least \<open>2 * f\<close> long and half the
  segment length otherwise; it never exceeds half the segment length, and the fade-out starts
  no earlier than the fade-in ends and no later than the end of the segment.
\<close>

theorem fades_never_overlap:
  assumes "0 \<le> s" and "s < e" and "0 \<le> f"
  shows "effective_fade (Fin s) (Fin e) (Fin f)
           = (if 2 * f \<le> e - s then Fin f else Fin ((e - s) / 2))
       \<and> fle (effective_fade (Fin s) (Fin e) (Fin f)) (fhalf (fsub (Fin e) (Fin s)))
       \<and> fle (effective_fade (Fin s) (Fin e) (Fin f)) (fade_out_start (Fin s) (Fin e) (Fin f))
       \<and> fle (fade_out_start (Fin s) (Fin e) (Fin f)) (fsub (Fin e) (Fin s))"
proof -
  have len: "fsub (Fin e) (Fin s) = Fin (e - s)"
    by (simp add: fsub_def)
  show ?thesis
  proof (cases "2 * f \<le> e - s")
    case True
    then have eff: "effective_fade (Fin s) (Fin e) (Fin f) = Fin f"
      by (simp add: effective_fade_def len)
    have out: "fade_out_start (Fin s) (Fin e) (Fin f) = Fin (e - s - f)"
      by (simp add: fade_out_start_def eff len fsub_def)
    show ?thesis
      using True assms by (simp add: eff out len fle_Fin)
  next
    case False
    then have eff: "effective_fade (Fin s) (Fin e) (Fin f) = Fin ((e - s) / 2)"
      by (simp add: effective_fade_def len)
    have half: "e - s - (e - s) / 2 = (e - s) / 2"
      by (simp add: field_simps)
    have out: "fade_out_start (Fin s) (Fin e) (Fin f) = Fin ((e - s) / 2)"
      using half by (simp add: fade_out_start_def eff len fsub_def)
    have pos: "(e - s) / 2 \<le> e - s"
      using assms(2) by simp
    show ?thesis
      using False pos unfolding eff out len by (simp add: fle_Fin)
  qed
qed

theorem fades_never_overlap_witness:
  "(0::real) \<le> 3 \<and> (3::real) < 3 + 1 / 20 \<and> (0::real) \<le> 1 / 10 \<and>
   effective_fade (Fin 3) (Fin (3 + 1 / 20)) (Fin (1 / 10)) = Fin (1 / 40) \<and>
   fade_out_start (Fin 3) (Fin (3 + 1 / 20)) (Fin (1 / 10)) = Fin (1 / 40)"
  using fades_never_overlap [of 3 "3 + 1 / 20" "1 / 10"]
  by (simp add: fade_out_start_def fsub_def)


section \<open>The silence parser reads every marker line\<close>

lemma digit_chars:
  assumes "is_digit c"
  shows "\<not> is_space c" and "c \<noteq> CHR ''_''" and "c \<noteq> CHR ''.''" and "c \<noteq> CHR ''-''"
    and "c \<noteq> CHR ''+''"
  using assms by (auto simp: is_digit_def is_space_def)

lemma list_all_takeWhile: "list_all P (takeWhile P xs)"
  by (induction xs) auto

lemma match_number_unfold:
  "match_number s =
     (if takeWhile is_digit s = [] then None
      else case dropWhile is_digit s of
             [] \<Rightarrow> Some (takeWhile is_digit s)
           | c # r' \<Rightarrow>
               if c = CHR ''.'' \<and> takeWhile is_digit r' \<noteq> []
               then Some (takeWhile is_digit s @ c # takeWhile is_digit r')
               else Some (takeWhile is_digit s))"
proof (cases "dropWhile is_digit s")
  case Nil
  show ?thesis
    unfolding match_number_def Let_def Nil by simp
next
  case (Cons c r')
  show ?thesis
    unfolding match_number_def Let_def Cons by simp
qed

lemma match_number_is_number:
  assumes "match_number s = Some g"
  shows "is_number g"
proof -
  let ?ds = "takeWhile is_digit s"
  have ds: "?ds \<noteq> []"
    using assms unfolding match_number_unfold by (auto split: if_splits)
  have all: "list_all is_digit ?ds"
    by (rule list_all_takeWhile)
  show ?thesis
  proof (cases "dropWhile is_digit s")
    case Nil
    have "g = ?ds"
      using assms ds unfolding match_number_unfold Nil by simp
    then show ?thesis
      unfolding is_number_def using ds all by (intro exI [of _ ?ds] exI [of _ "[]"]) simp
  next
    case (Cons c r')
    let ?fs = "takeWhile is_digit r'"
    show ?thesis
    proof (cases "c = CHR ''.'' \<and> ?fs \<noteq> []")
      case True
      have "g = ?ds @ CHR ''.'' # ?fs"
        using assms ds True unfolding match_number_unfold Cons by simp
      then show ?thesis
        unfolding is_number_def using ds all True list_all_takeWhile [of is_digit r']
        by (intro exI [of _ ?ds] exI [of _ ?fs]) simp
    next
      case False
      have "g = ?ds"
        using assms ds False unfolding match_number_unfold Cons by auto
      then show ?thesis
        unfolding is_number_def using ds all by (intro exI [of _ ?ds] exI [of _ "[]"]) simp
    qed
  qed
qed



lemma re_search_is_number: "re_search lit line = Some g \<Longrightarrow> is_number g"
proof (induction line)
  case Nil
  then show ?case
    by (auto simp: match_at_def match_number_is_number split: if_splits)
next
  case (Cons c cs)
  then show ?case
    by (auto simp: match_at_def match_number_is_number split: if_splits option.splits)
qed






lemma strip_underscores_none:
  "CHR ''_'' \<notin> set s \<Longrightarrow> prev \<noteq> CHR ''_'' \<Longrightarrow> strip_underscores prev s = Some s"
  by (induction s arbitrary: prev) auto

lemma py_strip_id:
  assumes "s \<noteq> []" and "\<not> is_space (hd s)" and "\<not> is_space (last s)"
  shows "py_strip s = s"
proof -
  have front: "dropWhile is_space s = s"
    using assms(2) by (simp add: dropWhile_eq_self_iff)
  have "hd (rev s) = last s"
    using assms(1) by (simp add: hd_rev)
  then have rear: "dropWhile is_space (rev s) = rev s"
    using assms(3) by (simp add: dropWhile_eq_self_iff)
  show ?thesis
    by (simp add: py_strip_def front rear)
qed

lemma pow10_pos: "0 < pow10 k"
  by (simp add: pow10_def)

lemma is_number_shape:
  assumes "is_number g"
  shows "g \<noteq> []" and "is_digit (hd g)" and "is_digit (last g)" and "CHR ''_'' \<notin> set g"
proof -
  from assms obtain ds fs
    where ds: "ds \<noteq> []" "list_all is_digit ds" and fs: "list_all is_digit fs"
      and g: "g = ds \<or> (fs \<noteq> [] \<and> g = ds @ CHR ''.'' # fs)"
    unfolding is_number_def by blast
  have hd_ds: "is_digit (hd ds)" and last_ds: "is_digit (last ds)"
    using ds by (simp_all add: list_all_iff)
  have no_us: "CHR ''_'' \<notin> set ds" "CHR ''_'' \<notin> set fs"
    using ds(2) fs digit_chars(2) by (auto simp: list_all_iff)
  from g show "g \<noteq> []"
    using ds(1) by auto
  from g show "is_digit (hd g)"
    using ds(1) hd_ds by auto
  from g show "is_digit (last g)"
    using last_ds fs by (auto simp: list_all_iff)
  from g show "CHR ''_'' \<notin> set g"
    using no_us by auto
qed

lemma parse_decimal_number:
  assumes "is_number g"
  shows "\<exists>v. parse_decimal g = Some v \<and> 0 \<le> v"
proof -
  from assms obtain ds fs
    where ds: "ds \<noteq> []" "list_all is_digit ds" and fs: "list_all is_digit fs"
      and g: "g = ds \<or> (fs \<noteq> [] \<and> g = ds @ CHR ''.'' # fs)"
    unfolding is_number_def by blast
  have all_ds: "\<forall>c \<in> set ds. is_digit c" and all_fs: "\<forall>c \<in> set fs. is_digit c"
    using ds(2) fs by (simp_all add: list_all_iff)
  have dot: "\<not> is_digit (CHR ''.'')"
    by (simp add: is_digit_def)
  from g show ?thesis
  proof
    assume eq: "g = ds"
    have tw: "takeWhile is_digit ds = ds" and dw: "dropWhile is_digit ds = []"
      using all_ds by simp_all
    have "parse_decimal g = Some (real (dec_nat ds) * pow10 0)"
      using ds(1) by (simp add: eq parse_decimal_def Let_def tw dw parse_exponent_def)
    then show ?thesis
      using pow10_pos [of 0] by simp
  next
    assume "fs \<noteq> [] \<and> g = ds @ CHR ''.'' # fs"
    then have fs_ne: "fs \<noteq> []" and eq: "g = ds @ CHR ''.'' # fs"
      by simp_all
    have tw: "takeWhile is_digit (ds @ CHR ''.'' # fs) = ds"
      using all_ds dot by (simp add: takeWhile_tail)
    have dw: "dropWhile is_digit (ds @ CHR ''.'' # fs) = CHR ''.'' # fs"
      using all_ds dot by (simp add: dropWhile_append3)
    have twf: "takeWhile is_digit fs = fs" and dwf: "dropWhile is_digit fs = []"
      using all_fs by simp_all
    have "parse_decimal g = Some (real (dec_nat (ds @ fs)) * pow10 (0 - int (length fs)))"
      using ds(1) by (simp add: eq parse_decimal_def Let_def tw dw twf dwf parse_exponent_def)
    then show ?thesis
      using pow10_pos [of "0 - int (length fs)"] by simp
  qed
qed

lemma py_float_number:
  assumes "is_number g"
  shows "\<exists>v. py_float g = Some (Fin v) \<and> 0 \<le> v"
proof -
  note shape = is_number_shape [OF assms]
  have strip: "py_strip g = g"
    using shape(1) digit_chars(1) [OF shape(2)] digit_chars(1) [OF shape(3)]
    by (rule py_strip_id)
  have us: "strip_underscores (CHR 0x00) g = Some g"
    using shape(4) by (rule strip_underscores_none) simp
  have sign: "parse_sign g = (False, g)"
    using shape(1) digit_chars(4,5) [OF shape(2)] by (cases g) auto
  from parse_decimal_number [OF assms] obtain v where v: "parse_decimal g = Some v" "0 \<le> v"
    by blast
  have "py_float g = Some (Fin v)"
    by (simp add: py_float_def strip us sign v(1))
  with v(2) show ?thesis by blast
qed


lemma timestamp_finite:
  assumes "timestamp lit line = Some t"
  shows "\<exists>v. t = Fin v \<and> 0 \<le> v"
proof -
  from assms obtain g where g: "re_search lit line = Some g" "py_float g = Some t"
    by (auto simp: timestamp_def split: option.splits)
  from re_search_is_number [OF g(1)] py_float_number obtain v
    where "py_float g = Some (Fin v)" "0 \<le> v"
    by blast
  with g(2) show ?thesis by auto
qed






















section \<open>The duration probe\<close>

lemma py_strip_trailing_newline:
  assumes "s \<noteq> []" and "\<not> is_space (hd s)" and "\<not> is_space (last s)"
  shows "py_strip (s @ [CHR 0x0A]) = s"
proof -
  have front: "dropWhile is_space (s @ [CHR 0x0A]) = s @ [CHR 0x0A]"
    using assms(1,2) by (cases s) auto
  have "hd (rev s) = last s"
    using assms(1) by (simp add: hd_rev)
  then have rear: "dropWhile is_space (rev s) = rev s"
    using assms(3) by (simp add: dropWhile_eq_self_iff)
  have nl: "is_space (CHR 0x0A)"
    by (simp add: is_space_def)
  show ?thesis
    by (simp add: py_strip_def front rear nl)
qed

lemma py_float_negative_number:
  assumes "is_number g"
  shows "\<exists>v. 0 \<le> v \<and> py_float g = Some (Fin v) \<and> py_float (CHR ''-'' # g) = Some (Fin (- v))"
proof -
  note shape = is_number_shape [OF assms]
  have strip: "py_strip g = g"
    using shape(1) digit_chars(1) [OF shape(2)] digit_chars(1) [OF shape(3)]
    by (rule py_strip_id)
  have us: "strip_underscores (CHR 0x00) g = Some g"
    using shape(4) by (rule strip_underscores_none) simp
  have sign: "parse_sign g = (False, g)"
    using shape(1) digit_chars(4,5) [OF shape(2)] by (cases g) auto
  have mstrip: "py_strip (CHR ''-'' # g) = CHR ''-'' # g"
    using shape(1) digit_chars(1) [OF shape(3)] by (intro py_strip_id) (simp_all add: is_space_def)
  have mus: "strip_underscores (CHR 0x00) (CHR ''-'' # g) = Some (CHR ''-'' # g)"
    using shape(4) by (intro strip_underscores_none) simp_all
  from parse_decimal_number [OF assms] obtain v where v: "parse_decimal g = Some v" "0 \<le> v"
    by blast
  have "py_float g = Some (Fin v)"
    by (simp add: py_float_def strip us sign v(1))
  moreover have "py_float (CHR ''-'' # g) = Some (Fin (- v))"
    unfolding py_float_def mstrip mus by (simp add: v(1))
  ultimately show ?thesis
    using v(2) by blast
qed

lemma parse_duration_number:
  assumes "is_number g"
  shows "\<exists>v. 0 \<le> v \<and> parse_duration (g @ [CHR 0x0A]) = Inr (Fin v)
           \<and> parse_duration (CHR ''-'' # g @ [CHR 0x0A]) = Inr (Fin (- v))"
proof -
  note shape = is_number_shape [OF assms]
  have s1: "py_strip (g @ [CHR 0x0A]) = g"
    using shape(1) digit_chars(1) [OF shape(2)] digit_chars(1) [OF shape(3)]
    by (rule py_strip_trailing_newline)
  have "py_strip ((CHR ''-'' # g) @ [CHR 0x0A]) = CHR ''-'' # g"
    using shape(1) digit_chars(1) [OF shape(3)]
    by (intro py_strip_trailing_newline) (simp_all add: is_space_def)
  then have s2: "py_strip (CHR ''-'' # g @ [CHR 0x0A]) = CHR ''-'' # g"
    by simp
  from py_float_negative_number [OF assms] obtain v
    where v: "0 \<le> v" "py_float g = Some (Fin v)" "py_float (CHR ''-'' # g) = Some (Fin (- v))"
    by blast
  have "parse_duration (g @ [CHR 0x0A]) = Inr (Fin v)"
    by (simp add: parse_duration_def s1 v(2))
  moreover have "parse_duration (CHR ''-'' # g @ [CHR 0x0A]) = Inr (Fin (- v))"
    by (simp add: parse_duration_def s2 v(3))
  ultimately show ?thesis
    using v(1) by blast
qed

lemma parse_duration_special:
  "parse_duration ''inf'' = Inr PInf" "parse_duration ''-inf'' = Inr NInf"
  "parse_duration ''nan'' = Inr NaN"
  by (simp_all add: parse_duration_def py_float_def py_strip_def is_space_def is_digit_def
      parse_decimal_def parse_inf_or_nan_def lower_ascii_def)

text \<open>
  C9, as the code has it. On every output text the probe returns the float that
  \<^verbatim>\<open>float()\<close> reads from the stripped text, and fails with its \<^verbatim>\<open>RuntimeError\<close> exactly
  when \<^verbatim>\<open>float()\<close> rejects that text. The value is not checked: a number with a minus
  sign is returned as a negative duration, and \<^verbatim>\<open>inf\<close>, \<^verbatim>\<open>-inf\<close> and \<^verbatim>\<open>nan\<close> are
  returned as the non-finite floats.
\<close>

theorem probe_returns_any_float:
  "(parse_duration txt = Inl (RuntimeError ''Failed to get video duration.'')
      \<longleftrightarrow> py_float (py_strip txt) = None)
   \<and> (\<forall>d. py_float (py_strip txt) = Some d \<longrightarrow> parse_duration txt = Inr d)
   \<and> (is_number g \<longrightarrow>
        (\<exists>v. 0 \<le> v \<and> parse_duration (g @ [CHR 0x0A]) = Inr (Fin v)
           \<and> parse_duration (CHR ''-'' # g @ [CHR 0x0A]) = Inr (Fin (- v))))
   \<and> parse_duration ''inf'' = Inr PInf \<and> parse_duration ''-inf'' = Inr NInf
   \<and> parse_duration ''nan'' = Inr NaN"
  using parse_duration_number [of g] parse_duration_special
  by (auto simp: parse_duration_def split: option.splits)

theorem probe_returns_any_float_witness:
  "is_number ''5.0''
   \<and> parse_duration (''5.0'' @ [CHR 0x0A]) = Inr (Fin 5)
   \<and> parse_duration (CHR ''-'' # ''5.0'' @ [CHR 0x0A]) = Inr (Fin (- 5))
   \<and> py_float (py_strip ''N/A'') = None
   \<and> parse_duration ''N/A'' = Inl (RuntimeError ''Failed to get video duration.'')"
proof -
  have num: "is_number ''5.0''"
    unfolding is_number_def
    by (intro exI [of _ "''5''"] exI [of _ "''0''"]) (simp add: is_digit_def)
  have val: "parse_duration (''5.0'' @ [CHR 0x0A]) = Inr (Fin 5)"
    by (simp add: parse_duration_def py_float_def py_strip_def is_space_def is_digit_def
        parse_decimal_def parse_exponent_def dec_nat_def digit_val_def pow10_def)
  have na: "py_float (py_strip ''N/A'') = None"
    by (simp add: py_float_def py_strip_def is_space_def is_digit_def parse_decimal_def
        parse_inf_or_nan_def lower_ascii_def)
  show ?thesis
    using num val na probe_returns_any_float [of "''N/A''" "''5.0''"]
    by auto
qed

text \<open>
  C9 as stated fails: the text \<^verbatim>\<open>-5.0\<close> parses to a negative number and is returned, not
  rejected.
\<close>

theorem probe_negative_counterexample:
  "parse_duration (''-5.0'' @ [CHR 0x0A]) = Inr (Fin (- 5)) \<and> flt (Fin (- 5)) (Fin 0)"
  by (simp add: parse_duration_def py_float_def py_strip_def is_space_def is_digit_def
      parse_decimal_def parse_exponent_def dec_nat_def digit_val_def pow10_def)

section \<open>The segment extractor and a failed transcode\<close>




section \<open>The orchestrator reports every error\<close>

lemma emits_ret: "emits_no_error (ret x)"
  by (simp add: emits_no_error_def ret_def)

lemma emits_raise: "emits_no_error (raise_exn e)"
  by (simp add: emits_no_error_def raise_exn_def)

lemma emits_lift: "emits_no_error (lift r)"
  by (simp add: emits_no_error_def lift_def)

lemma emits_status: "\<not> prefix ''Error: '' msg \<Longrightarrow> emits_no_error (status_callback msg)"
  by (simp add: emits_no_error_def status_callback_def)

lemma emits_bnd:
  assumes "emits_no_error m" and "\<And>x. emits_no_error (f x)"
  shows "emits_no_error (bnd m f)"
  unfolding emits_no_error_def
proof (intro allI impI)
  fix msgs r msgs'
  assume run: "bnd m f msgs = (r, msgs')"
  obtain r1 msgs1 where m: "m msgs = (r1, msgs1)"
    by (cases "m msgs")
  from assms(1) m obtain new1 where new1: "msgs1 = msgs @ new1" "filter (prefix ''Error: '') new1 = []"
    unfolding emits_no_error_def by blast
  show "\<exists>new. msgs' = msgs @ new \<and> filter (prefix ''Error: '') new = []"
  proof (cases r1)
    case (Inl e)
    with run m have "msgs' = msgs1"
      by (simp add: bnd_def)
    with new1 show ?thesis by blast
  next
    case (Inr x)
    with run m have "f x msgs1 = (r, msgs')"
      by (simp add: bnd_def)
    with assms(2) [of x] obtain new2
      where new2: "msgs' = msgs1 @ new2" "filter (prefix ''Error: '') new2 = []"
      unfolding emits_no_error_def by blast
    have "msgs' = msgs @ (new1 @ new2)" and "filter (prefix ''Error: '') (new1 @ new2) = []"
      using new1 new2 by simp_all
    then show ?thesis by blast
  qed
qed

lemma emits_with_tmpdir:
  assumes "\<And>d. emits_no_error (body d)"
  shows "emits_no_error (with_tmpdir env body)"
  unfolding emits_no_error_def
proof (intro allI impI)
  fix msgs r msgs'
  assume run: "with_tmpdir env body msgs = (r, msgs')"
  show "\<exists>new. msgs' = msgs @ new \<and> filter (prefix ''Error: '') new = []"
  proof (cases "tmp_mkdtemp env")
    case (Inl e)
    with run have "msgs' = msgs"
      by (simp add: with_tmpdir_def)
    then show ?thesis by simp
  next
    case (Inr d)
    obtain r1 msgs1 where b: "body d msgs = (r1, msgs1)"
      by (cases "body d msgs")
    with run Inr have "msgs' = msgs1"
      by (simp add: with_tmpdir_def split: sum.splits)
    with assms [of d] b show ?thesis
      unfolding emits_no_error_def by blast
  qed
qed

lemma emits_cut_segment:
  "emits_no_error (cut_segment env input_file start end output_file fade_duration)"
  unfolding cut_segment_def
  by (intro emits_bnd emits_status emits_lift emits_ret) simp

lemma emits_cut_all:
  "emits_no_error (cut_all env input_file tmpdirname idx segments segment_files)"
proof (induction segments arbitrary: idx segment_files)
  case Nil
  show ?case by (simp add: emits_ret)
next
  case (Cons seg segments)
  obtain start "end" where seg: "seg = (start, end)"
    by (cases seg)
  show ?case
    unfolding seg cut_all.simps Let_def
    by (intro emits_bnd emits_cut_segment Cons.IH)
qed

lemma emits_concat:
  "emits_no_error (concat_segments_without_crossfade env segment_files output_file)"
  unfolding concat_segments_without_crossfade_def
  by (intro emits_bnd emits_status emits_lift) simp

lemma emits_detect_silence:
  "emits_no_error (detect_silence env input_file threshold min_silence_duration)"
  unfolding detect_silence_def
  by (intro emits_bnd emits_status emits_lift) simp

lemma emits_process_body:
  "emits_no_error
     (process_body env input_file output_file threshold min_silence_duration margin)"
proof -
  have guard: "\<And>segments :: segment list.
      emits_no_error (if segments = [] then raise_exn (RuntimeError no_segments_msg) else ret ())"
    by (simp add: emits_raise emits_ret)
  show ?thesis
    unfolding process_body_def Let_def case_prod_beta
    by (intro emits_bnd emits_lift emits_status emits_detect_silence guard emits_with_tmpdir
        emits_cut_all emits_concat) simp_all
qed

lemma process_video_returns:
  "fst (process_video env input_file output_file threshold min_silence_duration margin msgs)
     = Inr ()"
  by (simp add: process_video_def try_except_def status_callback_def
      split: prod.splits sum.splits)

lemma process_video_on_error:
  assumes "process_body env input_file output_file threshold min_silence_duration margin msgs
      = (Inl e, msgs')"
  shows "process_video env input_file output_file threshold min_silence_duration margin msgs
      = (Inr (), msgs' @ [''Error: '' @ exn_str e])"
  using assms by (simp add: process_video_def try_except_def status_callback_def)

lemma process_body_probe_fails:
  assumes "get_video_duration env input_file = Inl e"
  shows "process_body env input_file output_file threshold min_silence_duration margin msgs
      = (Inl e, msgs)"
  using assms by (simp add: process_body_def bnd_def lift_def)

lemma process_body_no_segments:
  assumes "get_video_duration env input_file = Inr duration"
    and "subprocess_run env (detect_cmd env input_file threshold min_silence_duration) = Inr p"
    and "parse_silence (proc_stderr p) = Inr (starts, ends)"
    and "compute_keep_segments starts ends duration (Fin (1 / 10)) margin = []"
  shows "process_body env input_file output_file threshold min_silence_duration margin msgs
      = (Inl (RuntimeError no_segments_msg),
         msgs @ [''Video duration: '' @ format_2f env duration @ '' seconds'',
                 ''Detecting silence...''])"
  using assms
  by (simp add: process_body_def bnd_def lift_def status_callback_def detect_silence_def
      raise_exn_def)

text \<open>
  C6. \<^verbatim>\<open>process_video\<close> always returns normally. When a stage raises an error, the run
  delivers through the status callback, as its last message, \<^verbatim>\<open>Error: \<close> followed by the
  text of the error, and none of the messages delivered before it starts with
  \<^verbatim>\<open>Error: \<close>, so that message is the only one. This holds when the probe raises, and
  when \<^verbatim>\<open>compute_keep_segments\<close> returns the empty list, which is raised as the
  no-segments error after the two messages of the probe and the detector. (The callback
  itself is taken not to raise.)
\<close>

theorem process_video_reports_errors:
  "fst (process_video env input_file output_file threshold min_silence_duration margin msgs)
     = Inr ()
   \<and> (process_body env input_file output_file threshold min_silence_duration margin msgs
         = (Inl e, msgs') \<longrightarrow>
        process_video env input_file output_file threshold min_silence_duration margin msgs
          = (Inr (), msgs' @ [''Error: '' @ exn_str e])
        \<and> (\<exists>new. msgs' = msgs @ new \<and> filter (prefix ''Error: '') new = []))
   \<and> (get_video_duration env input_file = Inl e \<longrightarrow>
        process_video env input_file output_file threshold min_silence_duration margin msgs
          = (Inr (), msgs @ [''Error: '' @ exn_str e]))
   \<and> (get_video_duration env input_file = Inr duration
        \<and> subprocess_run env (detect_cmd env input_file threshold min_silence_duration) = Inr p
        \<and> parse_silence (proc_stderr p) = Inr (starts, ends)
        \<and> compute_keep_segments starts ends duration (Fin (1 / 10)) margin = [] \<longrightarrow>
        process_video env input_file output_file threshold min_silence_duration margin msgs
          = (Inr (), msgs @ [''Video duration: '' @ format_2f env duration @ '' seconds'',
               ''Detecting silence...'', ''Error: '' @ no_segments_msg]))"
proof (intro conjI impI)
  show "fst (process_video env input_file output_file threshold min_silence_duration margin
      msgs) = Inr ()"
    by (rule process_video_returns)
next
  assume body: "process_body env input_file output_file threshold min_silence_duration margin
      msgs = (Inl e, msgs')"
  then show "process_video env input_file output_file threshold min_silence_duration margin
      msgs = (Inr (), msgs' @ [''Error: '' @ exn_str e])"
    by (rule process_video_on_error)
  from emits_process_body body show "\<exists>new. msgs' = msgs @ new \<and> filter (prefix ''Error: '') new = []"
    unfolding emits_no_error_def by blast
next
  assume "get_video_duration env input_file = Inl e"
  then have "process_body env input_file output_file threshold min_silence_duration margin
      msgs = (Inl e, msgs)"
    by (rule process_body_probe_fails)
  then show "process_video env input_file output_file threshold min_silence_duration margin
      msgs = (Inr (), msgs @ [''Error: '' @ exn_str e])"
    by (rule process_video_on_error)
next
  assume h: "get_video_duration env input_file = Inr duration
        \<and> subprocess_run env (detect_cmd env input_file threshold min_silence_duration) = Inr p
        \<and> parse_silence (proc_stderr p) = Inr (starts, ends)
        \<and> compute_keep_segments starts ends duration (Fin (1 / 10)) margin = []"
  then have "process_body env input_file output_file threshold min_silence_duration margin
      msgs = (Inl (RuntimeError no_segments_msg),
         msgs @ [''Video duration: '' @ format_2f env duration @ '' seconds'',
                 ''Detecting silence...''])"
    by (intro process_body_no_segments [of env input_file duration threshold
          min_silence_duration p starts ends margin]) simp_all
  then show "process_video env input_file output_file threshold min_silence_duration margin
      msgs = (Inr (), msgs @ [''Video duration: '' @ format_2f env duration @ '' seconds'',
               ''Detecting silence...'', ''Error: '' @ no_segments_msg])"
    using process_video_on_error by fastforce
qed


theorem process_video_reports_errors_witness:
  "get_video_duration silent_clip ''in.mp4'' = Inr (Fin 5)
   \<and> compute_keep_segments [Fin 0] [Fin 5] (Fin 5) (Fin (1 / 10)) (Fin (1 / 2)) = []
   \<and> process_body silent_clip ''in.mp4'' ''out.mp4'' (Fin (- 30)) (Fin 1) (Fin (1 / 2)) []
       = (Inl (RuntimeError no_segments_msg),
          [''Video duration: 5.00 seconds'', ''Detecting silence...''])
   \<and> process_video silent_clip ''in.mp4'' ''out.mp4'' (Fin (- 30)) (Fin 1) (Fin (1 / 2)) []
       = (Inr (),
          [''Video duration: 5.00 seconds'', ''Detecting silence...'',
           ''Error: '' @ no_segments_msg])"
proof -
  let ?p = "\<lparr>returncode = 0, proc_stdout = [],
             proc_stderr = ''silence_start: 0'' @ [CHR 0x0A]
               @ ''silence_end: 5 | silence_duration: 5'',
             output_written = False\<rparr>"
  have dur: "get_video_duration silent_clip ''in.mp4'' = Inr (Fin 5)"
    by (simp add: get_video_duration_def silent_clip_def parse_duration_def
        py_float_def py_strip_def is_space_def is_digit_def parse_decimal_def
        parse_exponent_def dec_nat_def digit_val_def pow10_def)
  have run: "subprocess_run silent_clip (detect_cmd silent_clip ''in.mp4'' (Fin (- 30)) (Fin 1))
      = Inr ?p"
    by (simp add: silent_clip_def detect_cmd_def probe_cmd_def)
  have f: "py_float ''0'' = Some (Fin 0)" "py_float ''5'' = Some (Fin 5)"
    by (simp_all add: py_float_def py_strip_def is_space_def is_digit_def parse_decimal_def
        parse_exponent_def dec_nat_def digit_val_def pow10_def)
  have parse: "parse_silence (proc_stderr ?p) = Inr ([Fin 0], [Fin 5])"
    by (simp add: parse_silence_def splitlines.simps is_linebreak_def scan_marker_def
        match_at_def match_number_def is_digit_def f)
  have segs: "compute_keep_segments [Fin 0] [Fin 5] (Fin 5) (Fin (1 / 10)) (Fin (1 / 2)) = []"
    by (simp add: compute_keep_segments_def base_segments_def fgt_def fsub_def)
  have fmt: "format_2f silent_clip (Fin 5) = ''5.00''"
    by (simp add: silent_clip_def)
  have body: "process_body silent_clip ''in.mp4'' ''out.mp4'' (Fin (- 30)) (Fin 1)
      (Fin (1 / 2)) []
      = (Inl (RuntimeError no_segments_msg),
         [''Video duration: 5.00 seconds'', ''Detecting silence...''])"
    using run parse
    by (simp add: process_body_def bnd_def lift_def status_callback_def detect_silence_def
        raise_exn_def dur segs fmt)
  have "process_video silent_clip ''in.mp4'' ''out.mp4'' (Fin (- 30)) (Fin 1) (Fin (1 / 2)) []
       = (Inr (),
          [''Video duration: 5.00 seconds'', ''Detecting silence...'',
           ''Error: '' @ no_segments_msg])"
    using dur run parse segs fmt
      process_video_reports_errors [where env = silent_clip and input_file = "''in.mp4''"
        and output_file = "''out.mp4''" and threshold = "Fin (- 30)"
        and min_silence_duration = "Fin 1" and margin = "Fin (1 / 2)" and msgs = "[]"
        and duration = "Fin 5" and p = ?p and starts = "[Fin 0]" and ends = "[Fin 5]"]
    by simp
  then show ?thesis
    using dur segs body by simp
qed

end
